theory Spec2Isabelle
  imports Main "HOL-Library.AList"
begin

section \<open>Authelia UserAdmin (useradmin/app.mjs)\<close>

text \<open>
  A shallow embedding of the request handlers of \<^verbatim>\<open>src/useradmin/app.mjs\<close>: the admin
  check on forwarded headers, the users file (\<^verbatim>\<open>users.yml\<close>), the invites file and the
  handlers that read, modify and write them.

  Conventions of the embedding.
  \<^item> A \<open>string\<close> is the sequence of code units of a JavaScript string, each below 256.
    Header values always are (Node decodes them as latin-1); user names, tokens and
    passwords are only compared, stored and tested for emptiness.
  \<^item> Numbers are integers (\<open>int\<close>); the one computation on them, the expiry of an
    invitation, is guarded to the range where double arithmetic is exact.
  \<^item> The clock (\<^verbatim>\<open>Date.now()\<close>), the token generator (\<^verbatim>\<open>uuidv4()\<close>), the external
    hashing command, the mail transport and \<^verbatim>\<open>BASE_URL\<close> are parameters of the handlers.
  \<^item> Writing a file succeeds, and a document written by \<^verbatim>\<open>yaml.dump\<close> or
    \<^verbatim>\<open>JSON.stringify\<close> is read back unchanged.
\<close>

subsection \<open>Values\<close>

text \<open>
  JSON values, as \<^verbatim>\<open>JSON.parse\<close> builds them from a request body and \<^verbatim>\<open>yaml.load\<close> from a
  users file of scalars, sequences and mappings. An object is an association list of its
  own properties. \<^verbatim>\<open>undefined\<close> is not a value of this type: a variable or a
  property that may be undefined is a \<open>json option\<close>, and an object literal drops the
  properties that are undefined, as both serialisers do.
\<close>

datatype json =
    JNull
  | JBool bool
  | JNum int
  | JStr string
  | JArr "json list"
  | JObj "(string \<times> json) list"

text \<open>JavaScript truthiness, as tested by \<^verbatim>\<open>if (x)\<close>, \<^verbatim>\<open>!x\<close> and \<^verbatim>\<open>x || y\<close>.\<close>

fun truthy :: "json \<Rightarrow> bool" where
  "truthy JNull = False"
| "truthy (JBool b) = b"
| "truthy (JNum n) = (n \<noteq> 0)"
| "truthy (JStr s) = (s \<noteq> [])"
| "truthy (JArr xs) = True"
| "truthy (JObj kvs) = True"

fun truthy_opt :: "json option \<Rightarrow> bool" where
  "truthy_opt None = False"
| "truthy_opt (Some v) = truthy v"

text \<open>\<^verbatim>\<open>x || d\<close> for a possibly undefined \<open>x\<close> and a defined default.\<close>

definition or_else :: "json option \<Rightarrow> json \<Rightarrow> json" where
  "or_else x d = (case x of Some v \<Rightarrow> if truthy v then v else d | None \<Rightarrow> d)"

text \<open>
  The objects built by \<^verbatim>\<open>JSON.parse\<close>, \<^verbatim>\<open>yaml.load\<close> and \<^verbatim>\<open>{}\<close> inherit from
  \<^verbatim>\<open>Object.prototype\<close>. A property read \<^verbatim>\<open>obj[key]\<close> with a key that is not an own
  property finds the inherited member under these twelve names (functions, and the
  prototype object itself under \<^verbatim>\<open>__proto__\<close>), all of them truthy.
\<close>

definition object_prototype_keys :: "string list" where
  "object_prototype_keys =
     [''constructor'', ''__defineGetter__'', ''__defineSetter__'', ''hasOwnProperty'',
      ''__lookupGetter__'', ''__lookupSetter__'', ''isPrototypeOf'',
      ''propertyIsEnumerable'', ''toString'', ''valueOf'', ''__proto__'',
      ''toLocaleString'']"

datatype 'a slot = Absent | Own 'a | Inherited

text \<open>\<^verbatim>\<open>obj[key]\<close> on a plain object: the own property first, then the prototype.\<close>

definition js_get :: "(string \<times> 'a) list \<Rightarrow> string \<Rightarrow> 'a slot" where
  "js_get obj key =
     (case map_of obj key of
        Some v \<Rightarrow> Own v
      | None \<Rightarrow> if key \<in> set object_prototype_keys then Inherited else Absent)"

fun truthy_slot :: "json slot \<Rightarrow> bool" where
  "truthy_slot Absent = False"
| "truthy_slot (Own v) = truthy v"
| "truthy_slot Inherited = True"

text \<open>
  \<^verbatim>\<open>obj[key] = v\<close> on a plain object. Under the key \<^verbatim>\<open>__proto__\<close>, when the object has no
  own property of that name, the assignment runs the inherited setter and adds no own
  property.
\<close>

definition js_set :: "(string \<times> 'a) list \<Rightarrow> string \<Rightarrow> 'a \<Rightarrow> (string \<times> 'a) list" where
  "js_set obj key v =
     (if key = ''__proto__'' \<and> map_of obj key = None then obj
      else AList.update key v obj)"

text \<open>\<^verbatim>\<open>delete obj[key]\<close> removes the own property.\<close>

definition js_delete :: "(string \<times> 'a) list \<Rightarrow> string \<Rightarrow> (string \<times> 'a) list" where
  "js_delete obj key = AList.delete key obj"

text \<open>
  \<^verbatim>\<open>v.name\<close> for one of the data fields \<^verbatim>\<open>users\<close>, \<^verbatim>\<open>password\<close>: no built-in prototype
  has a member of these names, so only an object can hold one. The receiver is truthy
  at every use (never \<^verbatim>\<open>null\<close>).
\<close>

fun field :: "json \<Rightarrow> string \<Rightarrow> json option" where
  "field (JObj kvs) name = map_of kvs name"
| "field v name = None"

text \<open>An object literal: properties whose value is undefined are not serialised.\<close>

definition object_literal :: "(string \<times> json option) list \<Rightarrow> json" where
  "object_literal props =
     JObj (List.map_filter (\<lambda>(k, v). map_option (Pair k) v) props)"

subsection \<open>Admin check on the forwarded headers\<close>

text \<open>
  \<^verbatim>\<open>req.header(h)\<close>: the request's headers, keyed by lower-case name. A header sent with
  an empty value is present with value \<open>''''\<close>.
\<close>

type_synonym request = "string \<Rightarrow> string option"

definition candidates :: "string list" where
  "candidates =
     [''x-forwarded-groups'', ''remote-groups'', ''x-authentik-groups'',
      ''x-authelia-groups'', ''x-forwarded-user'', ''x-remote-groups'']"

text \<open>The loop of \<^verbatim>\<open>getGroupsFromHeaders\<close>: \<^verbatim>\<open>if (val) return val\<close>, else the next name.\<close>

fun first_value :: "string list \<Rightarrow> request \<Rightarrow> string option" where
  "first_value [] req = None"
| "first_value (h # hs) req =
     (case req h of
        Some val \<Rightarrow> if val \<noteq> [] then Some val else first_value hs req
      | None \<Rightarrow> first_value hs req)"

definition getGroupsFromHeaders :: "request \<Rightarrow> string option" where
  "getGroupsFromHeaders req = first_value candidates req"

text \<open>
  The characters matched by \<^verbatim>\<open>\s\<close> and removed by \<^verbatim>\<open>trim()\<close>, among the code units
  below 256: tab, line feed, vertical tab, form feed, carriage return, space and
  no-break space.
\<close>

definition is_space :: "char \<Rightarrow> bool" where
  "is_space c \<longleftrightarrow>
     c \<in> set [CHR 0x09, CHR 0x0A, CHR 0x0B, CHR 0x0C, CHR 0x0D, CHR 0x20, CHR 0xA0]"

definition is_sep :: "char \<Rightarrow> bool" where
  "is_sep c \<longleftrightarrow> c = CHR '','' \<or> is_space c"

text \<open>
  \<^verbatim>\<open>s.split(/[,\s]+/)\<close>: the pieces between the maximal runs of separators; a string
  that starts or ends with a separator has an empty first or last piece.
\<close>

fun split_sep :: "string \<Rightarrow> string list" where
  "split_sep [] = [[]]"
| "split_sep (c # cs) =
     (if is_sep c then
        (case cs of
           [] \<Rightarrow> [[], []]
         | d # ds \<Rightarrow> if is_sep d then split_sep cs else [] # split_sep cs)
      else
        (case split_sep cs of
           [] \<Rightarrow> [[c]]
         | p # ps \<Rightarrow> (c # p) # ps))"

definition trim :: "string \<Rightarrow> string" where
  "trim s = rev (dropWhile is_space (rev (dropWhile is_space s)))"

text \<open>\<^verbatim>\<open>groupsRaw.split(/[,\s]+/).map(g => g.trim()).filter(Boolean)\<close>\<close>

definition group_names :: "string \<Rightarrow> string list" where
  "group_names groupsRaw = filter (\<lambda>g. g \<noteq> []) (map trim (split_sep groupsRaw))"

datatype denial = NoGroupsHeader | NotAdmin

datatype decision = Authorized | Denied denial

text \<open>
  \<^verbatim>\<open>checkAdmin\<close>: \<open>Authorized\<close> is the call of \<^verbatim>\<open>next()\<close>; the denials are the 403
  responses "forbidden (no groups)" and "forbidden (not admin)".
\<close>

definition checkAdmin :: "request \<Rightarrow> decision" where
  "checkAdmin req =
     (case getGroupsFromHeaders req of
        None \<Rightarrow> Denied NoGroupsHeader
      | Some groupsRaw \<Rightarrow>
          if groupsRaw = [] then Denied NoGroupsHeader
          else if ''admins'' \<in> set (group_names groupsRaw) then Authorized
          else Denied NotAdmin)"

subsection \<open>The two files\<close>

text \<open>
  The users file (\<^verbatim>\<open>USERS_FILE\<close>) as \<^verbatim>\<open>loadUsers\<close> meets it: missing, unreadable
  (\<^verbatim>\<open>readFileSync\<close> throws), not valid YAML (\<^verbatim>\<open>yaml.load\<close> throws), or holding the
  document that \<^verbatim>\<open>yaml.load\<close> returns, which is undefined (\<open>None\<close>) for an empty file.
\<close>

datatype users_file = UMissing | UUnreadable | UInvalid | UDoc "json option"

text \<open>
  An invitation as \<^verbatim>\<open>POST /api/invite\<close> writes it. The invites file is written by this
  service only: it is missing, unreadable or unparseable, or holds a mapping from
  tokens to invitations (an empty file reads as the empty mapping).
\<close>

record invitation =
  email :: json
  groups :: json
  displayname :: json
  createdAt :: int
  expiresAt :: int

datatype invites_file = IMissing | ICorrupt | IDoc "(string \<times> invitation) list"

record disk =
  users_yml :: users_file
  invites_json :: invites_file

datatype exn = ReadFailed | YamlException | HashFailed | TypeError

definition skeleton :: users_file where
  "skeleton = UDoc (Some (JObj [(''users'', JObj [])]))"

definition loadUsers :: "disk \<Rightarrow> exn + json \<times> disk" where
  "loadUsers d =
     (let d1 = (if users_yml d = UMissing then d\<lparr>users_yml := skeleton\<rparr> else d) in
      case users_yml d1 of
        UMissing \<Rightarrow> Inl ReadFailed
      | UUnreadable \<Rightarrow> Inl ReadFailed
      | UInvalid \<Rightarrow> Inl YamlException
      | UDoc doc \<Rightarrow>
          (let parsed = or_else doc (JObj []) in
           Inr (or_else (field parsed ''users'') (JObj []), d1)))"

definition saveUsers :: "json \<Rightarrow> disk \<Rightarrow> disk" where
  "saveUsers usersObj d = d\<lparr>users_yml := UDoc (Some (JObj [(''users'', usersObj)]))\<rparr>"

definition loadInvites :: "disk \<Rightarrow> (string \<times> invitation) list" where
  "loadInvites d =
     (case invites_json d of
        IMissing \<Rightarrow> []
      | ICorrupt \<Rightarrow> []
      | IDoc invites \<Rightarrow> invites)"

definition saveInvites :: "(string \<times> invitation) list \<Rightarrow> disk \<Rightarrow> disk" where
  "saveInvites invites d = d\<lparr>invites_json := IDoc invites\<rparr>"

subsection \<open>Responses\<close>

datatype body =
    OkBody
  | InviteBody string string
  | UsersBody "(string \<times> json) list"
  | ErrorBody string
  | ExceptionBody exn

text \<open>
  A response is a status and a JSON body. \<open>NotModelled\<close> marks the runs this embedding
  does not follow: a users document whose \<^verbatim>\<open>users\<close> entry is truthy but not a mapping
  (indexing a scalar or a sequence by a user name depends on that value's built-in
  prototype), and an expiry beyond the exact range of double arithmetic.
\<close>

datatype response = Response nat body | NotModelled

definition forbidden :: "denial \<Rightarrow> response" where
  "forbidden why =
     (case why of
        NoGroupsHeader \<Rightarrow> Response 403 (ErrorBody ''forbidden (no groups)'')
      | NotAdmin \<Rightarrow> Response 403 (ErrorBody ''forbidden (not admin)''))"

text \<open>A route registered with the \<^verbatim>\<open>checkAdmin\<close> middleware in front of its handler.\<close>

definition admin_route ::
  "request \<Rightarrow> (disk \<Rightarrow> response \<times> disk) \<Rightarrow> disk \<Rightarrow> response \<times> disk" where
  "admin_route req handler d =
     (case checkAdmin req of
        Authorized \<Rightarrow> handler d
      | Denied why \<Rightarrow> (forbidden why, d))"

subsection \<open>User management\<close>

text \<open>
  In the handlers, \<open>b_x\<close> is the field \<open>x\<close> of the JSON request body (\<open>None\<close> when the
  body has no such field) and \<open>p_username\<close> is the path parameter. The body's user name,
  password and token are strings when present; the other fields are any JSON value.
\<close>

fun digit_char :: "nat \<Rightarrow> char" where
  "digit_char n = char_of (48 + n)"

fun decimal :: "nat \<Rightarrow> string" where
  "decimal n = (if n < 10 then [digit_char n] else decimal (n div 10) @ [digit_char (n mod 10)])"

text \<open>
  The own enumerable properties of a value, as \<^verbatim>\<open>Object.entries(v)\<close> and \<^verbatim>\<open>{...v}\<close> see
  them: the properties of an object, the elements of an array and the characters of a
  string under their indices, nothing for the other values.
\<close>

fun own_props :: "json \<Rightarrow> (string \<times> json) list" where
  "own_props (JObj kvs) = kvs"
| "own_props (JArr xs) = zip (map decimal [0..<length xs]) xs"
| "own_props (JStr s) = zip (map decimal [0..<length s]) (map (\<lambda>c. JStr [c]) s)"
| "own_props v = []"

text \<open>\<^verbatim>\<open>safe[k] = { ...v }; if (safe[k].password) delete safe[k].password;\<close>\<close>

definition strip_password :: "json \<Rightarrow> json" where
  "strip_password v =
     (let copy = own_props v in
      JObj (if truthy_opt (map_of copy ''password'') then js_delete copy ''password''
            else copy))"

text \<open>
  The loop over \<^verbatim>\<open>Object.entries(users)\<close>. The keys of an object are distinct, so each
  assignment \<^verbatim>\<open>safe[k] = ...\<close> adds a property, except under the key \<^verbatim>\<open>__proto__\<close>
  (see \<open>js_set\<close>), which leaves no own property to be serialised.
\<close>

definition safe_users :: "(string \<times> json) list \<Rightarrow> (string \<times> json) list" where
  "safe_users entries =
     map (\<lambda>(k, v). (k, strip_password v)) (filter (\<lambda>(k, v). k \<noteq> ''__proto__'') entries)"

definition get_api_users :: "disk \<Rightarrow> response \<times> disk" where
  "get_api_users d =
     (case loadUsers d of
        Inl e \<Rightarrow> (Response 500 (ExceptionBody e), d)
      | Inr (users, d1) \<Rightarrow> (Response 200 (UsersBody (safe_users (own_props users))), d1))"

text \<open>\<^verbatim>\<open>Array.isArray(groups) ? groups : (groups ? [groups] : ["users"])\<close>\<close>

fun groups_or_default :: "json option \<Rightarrow> json" where
  "groups_or_default (Some (JArr gs)) = JArr gs"
| "groups_or_default (Some g) = (if truthy g then JArr [g] else JArr [JStr ''users''])"
| "groups_or_default None = JArr [JStr ''users'']"

definition post_api_users ::
  "(string \<Rightarrow> string option) \<Rightarrow> string option \<Rightarrow> string option \<Rightarrow> json option \<Rightarrow>
   json option \<Rightarrow> json option \<Rightarrow> disk \<Rightarrow> response \<times> disk" where
  "post_api_users generateHash b_username b_password b_email b_groups b_displayname d =
     (case b_username of
        None \<Rightarrow> (Response 400 (ErrorBody ''username fehlt''), d)
      | Some username \<Rightarrow>
     if username = [] then (Response 400 (ErrorBody ''username fehlt''), d) else
     (case b_password of
        None \<Rightarrow> (Response 400 (ErrorBody ''password fehlt''), d)
      | Some password \<Rightarrow>
     if password = [] then (Response 400 (ErrorBody ''password fehlt''), d) else
     (case loadUsers d of
        Inl e \<Rightarrow> (Response 500 (ExceptionBody e), d)
      | Inr (JObj users, d1) \<Rightarrow>
          if truthy_slot (js_get users username) then
            (Response 400 (ErrorBody ''User exists''), d1)
          else
            (case generateHash password of
               None \<Rightarrow> (Response 500 (ExceptionBody HashFailed), d1)
             | Some hash \<Rightarrow>
                 (Response 200 OkBody,
                  saveUsers
                    (JObj (js_set users username
                       (object_literal
                          [(''displayname'', Some (or_else b_displayname (JStr username))),
                           (''email'', b_email),
                           (''password'', Some (JStr hash)),
                           (''groups'', Some (groups_or_default b_groups))])))
                    d1))
      | Inr (other, d1) \<Rightarrow> (NotModelled, d1))))"

text \<open>
  \<^verbatim>\<open>users[username].f = x\<close> for each field given, on a truthy \<^verbatim>\<open>users[username]\<close>. On an
  object the property is set; on an array it is set and not serialised; on a string,
  number or boolean the assignment throws (the module is strict code).
\<close>

fun assign_given :: "(string \<times> json) list \<Rightarrow> (string \<times> json option) list \<Rightarrow> (string \<times> json) list" where
  "assign_given r [] = r"
| "assign_given r ((f, None) # rest) = assign_given r rest"
| "assign_given r ((f, Some x) # rest) = assign_given (js_set r f x) rest"

definition assign_fields :: "json \<Rightarrow> (string \<times> json option) list \<Rightarrow> exn + json" where
  "assign_fields v given =
     (case v of
        JObj r \<Rightarrow> Inr (JObj (assign_given r given))
      | JArr xs \<Rightarrow> Inr (JArr xs)
      | other \<Rightarrow> if list_all (\<lambda>(f, x). x = None) given then Inr other else Inl TypeError)"

text \<open>\<^verbatim>\<open>Array.isArray(groups) ? groups : [groups]\<close>\<close>

fun as_array :: "json \<Rightarrow> json" where
  "as_array (JArr gs) = JArr gs"
| "as_array g = JArr [g]"

definition put_api_users ::
  "string \<Rightarrow> json option \<Rightarrow> json option \<Rightarrow> json option \<Rightarrow> disk \<Rightarrow> response \<times> disk" where
  "put_api_users p_username b_email b_groups b_displayname d =
     (case loadUsers d of
        Inl e \<Rightarrow> (Response 500 (ExceptionBody e), d)
      | Inr (JObj users, d1) \<Rightarrow>
          (case js_get users p_username of
             Absent \<Rightarrow> (Response 404 (ErrorBody ''User not found''), d1)
           | Inherited \<Rightarrow> (Response 200 OkBody, saveUsers (JObj users) d1)
           | Own v \<Rightarrow>
               if \<not> truthy v then (Response 404 (ErrorBody ''User not found''), d1)
               else
                 (case assign_fields v
                         [(''email'', b_email),
                          (''displayname'', b_displayname),
                          (''groups'', map_option as_array b_groups)] of
                    Inl e \<Rightarrow> (Response 500 (ExceptionBody e), d1)
                  | Inr v' \<Rightarrow>
                      (Response 200 OkBody,
                       saveUsers (JObj (AList.update p_username v' users)) d1)))
      | Inr (other, d1) \<Rightarrow> (NotModelled, d1))"

definition post_api_users_password ::
  "(string \<Rightarrow> string option) \<Rightarrow> string \<Rightarrow> string option \<Rightarrow> disk \<Rightarrow> response \<times> disk" where
  "post_api_users_password generateHash p_username b_password d =
     (case b_password of
        None \<Rightarrow> (Response 400 (ErrorBody ''password fehlt''), d)
      | Some password \<Rightarrow>
     if password = [] then (Response 400 (ErrorBody ''password fehlt''), d) else
     (case loadUsers d of
        Inl e \<Rightarrow> (Response 500 (ExceptionBody e), d)
      | Inr (JObj users, d1) \<Rightarrow>
          if \<not> truthy_slot (js_get users p_username) then
            (Response 404 (ErrorBody ''User not found''), d1)
          else
            (case generateHash password of
               None \<Rightarrow> (Response 500 (ExceptionBody HashFailed), d1)
             | Some hash \<Rightarrow>
                 (case js_get users p_username of
                    Own v \<Rightarrow>
                      (case assign_fields v [(''password'', Some (JStr hash))] of
                         Inl e \<Rightarrow> (Response 500 (ExceptionBody e), d1)
                       | Inr v' \<Rightarrow>
                           (Response 200 OkBody,
                            saveUsers (JObj (AList.update p_username v' users)) d1))
                  | other \<Rightarrow> (Response 200 OkBody, saveUsers (JObj users) d1)))
      | Inr (other, d1) \<Rightarrow> (NotModelled, d1)))"

definition delete_api_users :: "string \<Rightarrow> disk \<Rightarrow> response \<times> disk" where
  "delete_api_users p_username d =
     (case loadUsers d of
        Inl e \<Rightarrow> (Response 500 (ExceptionBody e), d)
      | Inr (JObj users, d1) \<Rightarrow>
          if \<not> truthy_slot (js_get users p_username) then
            (Response 404 (ErrorBody ''User not found''), d1)
          else (Response 200 OkBody, saveUsers (JObj (js_delete users p_username)) d1)
      | Inr (other, d1) \<Rightarrow> (NotModelled, d1))"

subsection \<open>Invitations\<close>

text \<open>
  \<^verbatim>\<open>Date.now() + expiresMinutes * 60 * 1000\<close> on integers. Double arithmetic is exact as
  long as every operand and result is a safe integer; beyond that the sum is rounded,
  which is not followed here (\<open>None\<close>).
\<close>

definition safe_integer :: "int \<Rightarrow> bool" where
  "safe_integer n \<longleftrightarrow> - 9007199254740991 \<le> n \<and> n \<le> 9007199254740991"

definition expiry :: "int \<Rightarrow> int \<Rightarrow> int option" where
  "expiry now expiresMinutes =
     (if safe_integer now \<and> safe_integer expiresMinutes \<and>
         safe_integer (expiresMinutes * 60) \<and> safe_integer (expiresMinutes * 60 * 1000) \<and>
         safe_integer (now + expiresMinutes * 60 * 1000)
      then Some (now + expiresMinutes * 60 * 1000) else None)"

text \<open>
  The mail transport: not configured (\<^verbatim>\<open>transporter\<close> is null), or \<^verbatim>\<open>sendMail\<close> resolves,
  or rejects with a message. Its outcome reaches the log only, after the response.
\<close>

datatype mail = NoTransport | Delivered | Rejected string

datatype log_event =
    InviteMailSent json
  | InviteMailFailed string
  | InviteCreatedNoSmtp json string

text \<open>
  \<^verbatim>\<open>POST /api/invite\<close>. \<open>base\<close> is \<^verbatim>\<open>process.env.BASE_URL || ""\<close>, \<open>token\<close> the result of
  \<^verbatim>\<open>uuidv4()\<close>, and \<open>now1\<close>, \<open>now2\<close> the results of the two calls of \<^verbatim>\<open>Date.now()\<close>, for
  \<^verbatim>\<open>createdAt\<close> and for \<^verbatim>\<open>expiresAt\<close>. \<open>b_expiresMinutes\<close> is an integer when present.
\<close>

definition post_api_invite ::
  "mail \<Rightarrow> string \<Rightarrow> string \<Rightarrow> int \<Rightarrow> int \<Rightarrow> json option \<Rightarrow> json option \<Rightarrow> json option \<Rightarrow>
   int option \<Rightarrow> disk \<Rightarrow> response \<times> disk \<times> log_event list" where
  "post_api_invite transporter base token now1 now2 b_email b_groups b_displayname
     b_expiresMinutes d =
     (case b_email of
        None \<Rightarrow> (Response 400 (ErrorBody ''email fehlt''), d, [])
      | Some addr \<Rightarrow>
     if \<not> truthy addr then (Response 400 (ErrorBody ''email fehlt''), d, []) else
     (case expiry now2 (case b_expiresMinutes of None \<Rightarrow> 60 | Some m \<Rightarrow> m) of
        None \<Rightarrow> (NotModelled, d, [])
      | Some expires \<Rightarrow>
          (let invites = loadInvites d;
               invites' = js_set invites token
                 \<lparr>email = addr,
                  groups = groups_or_default b_groups,
                  displayname = or_else b_displayname (JStr []),
                  createdAt = now1,
                  expiresAt = expires\<rparr>;
               link = base @ ''/admin/invite/accept.html?token='' @ token
           in (Response 200 (InviteBody token link),
               saveInvites invites' d,
               (case transporter of
                  NoTransport \<Rightarrow> [InviteCreatedNoSmtp addr link]
                | Delivered \<Rightarrow> [InviteMailSent addr]
                | Rejected msg \<Rightarrow> [InviteMailFailed msg])))))"

text \<open>
  \<^verbatim>\<open>invite.f\<close> on a truthy \<^verbatim>\<open>invite = invites[token]\<close>: the stored field of an own
  invitation, undefined on an inherited member of \<^verbatim>\<open>Object.prototype\<close>.
\<close>

fun invite_field :: "invitation slot \<Rightarrow> (invitation \<Rightarrow> 'a) \<Rightarrow> 'a option" where
  "invite_field (Own invite) f = Some (f invite)"
| "invite_field other f = None"

text \<open>\<^verbatim>\<open>Date.now() > invite.expiresAt\<close>; a comparison with undefined is false.\<close>

definition expired :: "int \<Rightarrow> invitation slot \<Rightarrow> bool" where
  "expired now invite =
     (case invite_field invite expiresAt of Some t \<Rightarrow> now > t | None \<Rightarrow> False)"

definition post_api_invite_accept ::
  "(string \<Rightarrow> string option) \<Rightarrow> int \<Rightarrow> string option \<Rightarrow> string option \<Rightarrow> string option \<Rightarrow>
   disk \<Rightarrow> response \<times> disk" where
  "post_api_invite_accept generateHash now b_token b_username b_password d =
     (case (b_token, b_username, b_password) of
        (Some token, Some username, Some password) \<Rightarrow>
          if token = [] \<or> username = [] \<or> password = [] then
            (Response 400 (ErrorBody ''token/username/password required''), d)
          else
            (let invites = loadInvites d; invite = js_get invites token in
             if invite = Absent then (Response 400 (ErrorBody ''invalid token''), d)
             else if expired now invite then
               (Response 400 (ErrorBody ''token expired''),
                saveInvites (js_delete invites token) d)
             else
               (case loadUsers d of
                  Inl e \<Rightarrow> (Response 500 (ExceptionBody e), d)
                | Inr (JObj users, d1) \<Rightarrow>
                    if truthy_slot (js_get users username) then
                      (Response 400 (ErrorBody ''username exists''), d1)
                    else
                      (case generateHash password of
                         None \<Rightarrow> (Response 500 (ExceptionBody HashFailed), d1)
                       | Some hash \<Rightarrow>
                           (Response 200 OkBody,
                            saveInvites (js_delete invites token)
                              (saveUsers
                                 (JObj (js_set users username
                                    (object_literal
                                       [(''displayname'',
                                         Some (or_else (invite_field invite displayname)
                                                 (JStr username))),
                                        (''email'', invite_field invite email),
                                        (''password'', Some (JStr hash)),
                                        (''groups'', invite_field invite groups)])))
                                 d1)))
                | Inr (other, d1) \<Rightarrow> (NotModelled, d1)))
      | incomplete \<Rightarrow> (Response 400 (ErrorBody ''token/username/password required''), d))"

subsection \<open>The specification's wording\<close>

text \<open>
  The access guard as the specification words it: the value of the first candidate
  header that is present, whatever it holds, decides.
\<close>

definition first_present :: "request \<Rightarrow> string option" where
  "first_present req =
     (case List.map_filter req candidates of [] \<Rightarrow> None | v # vs \<Rightarrow> Some v)"

definition guard_as_specified :: "request \<Rightarrow> decision" where
  "guard_as_specified req =
     (case first_present req of
        None \<Rightarrow> Denied NoGroupsHeader
      | Some v \<Rightarrow> if ''admins'' \<in> set (group_names v) then Authorized else Denied NotAdmin)"


text \<open>
  "Splits on comma/whitespace into a set of group names": \<open>g\<close> is a group name of the
  header value \<open>s\<close> when it is a non-empty run of characters other than separators that
  is bounded in \<open>s\<close> by a separator or an end of \<open>s\<close> on either side.
\<close>

definition is_group_of :: "string \<Rightarrow> string \<Rightarrow> bool" where
  "is_group_of g s \<longleftrightarrow>
     g \<noteq> [] \<and> list_all (\<lambda>c. \<not> is_sep c) g \<and>
     (\<exists>pre post. s = pre @ g @ post \<and> (pre = [] \<or> is_sep (last pre)) \<and>
        (post = [] \<or> is_sep (hd post)))"

section \<open>Properties\<close>

subsection \<open>Access guard\<close>

lemma first_value_filter:
  "first_value hs req =
     (case filter (\<lambda>v. v \<noteq> []) (List.map_filter req hs) of [] \<Rightarrow> None | v # vs \<Rightarrow> Some v)"
  by (induction hs) (auto split: option.splits)

lemma group_names_admins: "group_names ''admins'' = [''admins'']"
  by (simp add: group_names_def trim_def is_sep_def is_space_def)

lemma group_names_empty: "group_names [] = []"
  by (simp add: group_names_def trim_def)

text \<open>
  The pieces of \<open>split_sep\<close> hold no separator, so \<open>trim\<close> leaves them as they are, and
  the group names of a header value are exactly its maximal runs of characters other
  than separators.
\<close>

lemma split_sep_nonempty: "split_sep s \<noteq> []"
proof (induction s)
  case Nil
  then show ?case by simp
next
  case (Cons d ds)
  then show ?case
    by (cases ds; cases "split_sep ds") (simp_all del: split_sep.simps add: split_sep.simps(2) [of d])
qed

lemma split_sep_no_sep: "\<forall>p\<in>set (split_sep s). \<forall>c\<in>set p. \<not> is_sep c"
proof (induction s)
  case Nil
  then show ?case by simp
next
  case (Cons d ds)
  show ?case
  proof (cases "is_sep d")
    case True
    show ?thesis
    proof (cases ds)
      case Nil
      with True show ?thesis by simp
    next
      case (Cons x xs)
      with True Cons.IH show ?thesis
        by (cases "is_sep x") (simp_all del: split_sep.simps add: split_sep.simps(2) [of d])
    qed
  next
    case False
    obtain a list where s: "split_sep ds = a # list"
      using split_sep_nonempty [of ds] by (cases "split_sep ds") auto
    with False Cons.IH show ?thesis
      by (simp del: split_sep.simps add: split_sep.simps(2) [of d])
  qed
qed

lemma trim_no_space: "\<forall>c\<in>set p. \<not> is_space c \<Longrightarrow> trim p = p"
proof -
  assume a: "\<forall>c\<in>set p. \<not> is_space c"
  have "dropWhile is_space q = q" if "\<forall>c\<in>set q. \<not> is_space c" for q
    using that by (cases q) auto
  from this [of p] this [of "rev p"] a show ?thesis
    by (simp add: trim_def)
qed

lemma group_names_pieces: "group_names s = filter (\<lambda>g. g \<noteq> []) (split_sep s)"
proof -
  have "map trim (split_sep s) = split_sep s"
  proof (rule map_idI)
    fix p assume "p \<in> set (split_sep s)"
    with split_sep_no_sep [of s] have "\<forall>c\<in>set p. \<not> is_sep c" by blast
    then have "\<forall>c\<in>set p. \<not> is_space c" by (simp add: is_sep_def)
    then show "trim p = p" by (rule trim_no_space)
  qed
  then show ?thesis
    by (simp add: group_names_def)
qed

lemma hd_split_sep: "hd (split_sep s) = takeWhile (\<lambda>c. \<not> is_sep c) s"
proof (induction s)
  case Nil
  then show ?case by simp
next
  case (Cons d ds)
  then show ?case
    using split_sep_nonempty [of ds]
    by (cases ds; cases "split_sep ds")
       (simp_all del: split_sep.simps add: split_sep.simps(2) [of d])
qed

lemma leading_group:
  assumes "g \<noteq> []"
  shows "(list_all (\<lambda>c. \<not> is_sep c) g \<and> (\<exists>post. s = g @ post \<and> (post = [] \<or> is_sep (hd post))))
    \<longleftrightarrow> g = takeWhile (\<lambda>c. \<not> is_sep c) s"
proof
  assume "list_all (\<lambda>c. \<not> is_sep c) g \<and> (\<exists>post. s = g @ post \<and> (post = [] \<or> is_sep (hd post)))"
  then obtain post where g: "\<forall>c\<in>set g. \<not> is_sep c" and s: "s = g @ post"
    and p: "post = [] \<or> is_sep (hd post)"
    by (auto simp: list_all_iff)
  from p have "takeWhile (\<lambda>c. \<not> is_sep c) post = []"
    by (cases post) auto
  with g s show "g = takeWhile (\<lambda>c. \<not> is_sep c) s"
    by (simp add: takeWhile_append2)
next
  assume g: "g = takeWhile (\<lambda>c. \<not> is_sep c) s"
  have "s = g @ dropWhile (\<lambda>c. \<not> is_sep c) s"
    by (simp add: g)
  moreover have "dropWhile (\<lambda>c. \<not> is_sep c) s = [] \<or> is_sep (hd (dropWhile (\<lambda>c. \<not> is_sep c) s))"
    using hd_dropWhile [of "\<lambda>c. \<not> is_sep c" s] by auto
  moreover have "list_all (\<lambda>c. \<not> is_sep c) g"
    by (auto simp: g list_all_iff dest: set_takeWhileD)
  ultimately show "list_all (\<lambda>c. \<not> is_sep c) g \<and>
      (\<exists>post. s = g @ post \<and> (post = [] \<or> is_sep (hd post)))"
    by blast
qed

lemma inner_group_Cons:
  assumes "g \<noteq> []"
  shows "(\<exists>pre post. d # ds = pre @ g @ post \<and> pre \<noteq> [] \<and> is_sep (last pre) \<and>
            (post = [] \<or> is_sep (hd post)))
    \<longleftrightarrow> (\<exists>pre post. ds = pre @ g @ post \<and> pre \<noteq> [] \<and> is_sep (last pre) \<and>
            (post = [] \<or> is_sep (hd post)))
       \<or> (is_sep d \<and> (\<exists>post. ds = g @ post \<and> (post = [] \<or> is_sep (hd post))))"
  (is "?L \<longleftrightarrow> ?A \<or> ?B")
proof
  assume ?L
  then obtain pre post where e: "d # ds = pre @ g @ post" and n: "pre \<noteq> []"
    and l: "is_sep (last pre)" and p: "post = [] \<or> is_sep (hd post)"
    by blast
  from e n obtain pre' where pre: "pre = d # pre'" and ds: "ds = pre' @ g @ post"
    by (cases pre) auto
  show "?A \<or> ?B"
  proof (cases "pre' = []")
    case True
    with pre l ds p show ?thesis by auto
  next
    case False
    with pre l have "is_sep (last pre')" by simp
    with False ds p show ?thesis by blast
  qed
next
  assume "?A \<or> ?B"
  then show ?L
  proof
    assume ?A
    then obtain pre post where e: "ds = pre @ g @ post" and n: "pre \<noteq> []"
      and l: "is_sep (last pre)" and p: "post = [] \<or> is_sep (hd post)"
      by blast
    have "d # ds = (d # pre) @ g @ post \<and> d # pre \<noteq> [] \<and> is_sep (last (d # pre))"
      using e n l by simp
    with p show ?L by blast
  next
    assume ?B
    then obtain post where d: "is_sep d" and e: "ds = g @ post"
      and p: "post = [] \<or> is_sep (hd post)"
      by blast
    have "d # ds = [d] @ g @ post \<and> [d] \<noteq> [] \<and> is_sep (last [d])"
      using d e by simp
    with p show ?L by blast
  qed
qed

lemma tl_split_sep:
  assumes "g \<noteq> []"
  shows "g \<in> set (tl (split_sep s)) \<longleftrightarrow>
    list_all (\<lambda>c. \<not> is_sep c) g \<and>
    (\<exists>pre post. s = pre @ g @ post \<and> pre \<noteq> [] \<and> is_sep (last pre) \<and>
       (post = [] \<or> is_sep (hd post)))"
proof (induction s)
  case Nil
  with assms show ?case by simp
next
  case (Cons d ds)
  have free: "list_all (\<lambda>c. \<not> is_sep c) g" if "g \<in> set (split_sep ds)"
    using that split_sep_no_sep [of ds] by (auto simp: list_all_iff)
  have pieces: "set (split_sep ds) = insert (hd (split_sep ds)) (set (tl (split_sep ds)))"
    using split_sep_nonempty [of ds] by (cases "split_sep ds") auto
  note lead = leading_group [OF assms, of ds]
  note inner = inner_group_Cons [OF assms, of d ds]
  show ?case
  proof (cases "is_sep d")
    case False
    obtain p ps where s: "split_sep ds = p # ps"
      using split_sep_nonempty [of ds] by (cases "split_sep ds") auto
    with False have "tl (split_sep (d # ds)) = tl (split_sep ds)"
      by simp
    with False Cons.IH inner show ?thesis
      by simp
  next
    case True
    show ?thesis
    proof (cases ds)
      case Nil
      with True assms show ?thesis
        by (auto simp: Cons_eq_append_conv)
    next
      case (Cons x xs)
      show ?thesis
      proof (cases "is_sep x")
        case sx: True
        with True Cons have t: "tl (split_sep (d # ds)) = tl (split_sep ds)"
          by (simp del: split_sep.simps add: split_sep.simps(2) [of d])
        from sx Cons have "takeWhile (\<lambda>c. \<not> is_sep c) ds = []"
          by simp
        with lead assms have "\<not> (list_all (\<lambda>c. \<not> is_sep c) g \<and>
            (\<exists>post. ds = g @ post \<and> (post = [] \<or> is_sep (hd post))))"
          by simp
        with t Cons.IH inner show ?thesis
          by auto
      next
        case nx: False
        with True Cons have t: "tl (split_sep (d # ds)) = split_sep ds"
          by (simp del: split_sep.simps add: split_sep.simps(2) [of d])
        have "g \<in> set (split_sep ds) \<longleftrightarrow>
            g = takeWhile (\<lambda>c. \<not> is_sep c) ds \<or> g \<in> set (tl (split_sep ds))"
          using pieces by (auto simp: hd_split_sep)
        with t True Cons.IH inner lead show ?thesis
          by auto
      qed
    qed
  qed
qed

lemma group_names_iff: "g \<in> set (group_names s) \<longleftrightarrow> is_group_of g s"
proof (cases "g = []")
  case True
  then show ?thesis
    by (simp add: group_names_pieces is_group_of_def)
next
  case False
  have "set (split_sep s) = insert (hd (split_sep s)) (set (tl (split_sep s)))"
    using split_sep_nonempty [of s] by (cases "split_sep s") auto
  then have "g \<in> set (group_names s) \<longleftrightarrow>
      g = takeWhile (\<lambda>c. \<not> is_sep c) s \<or> g \<in> set (tl (split_sep s))"
    using False by (auto simp: group_names_pieces hd_split_sep)
  also have "\<dots> \<longleftrightarrow> is_group_of g s"
    unfolding is_group_of_def tl_split_sep [OF False] leading_group [OF False, symmetric]
    using False
    by (metis append_Nil)
  finally show ?thesis .
qed

text \<open>
  Claim C3, as the code has it: the guard takes the first candidate header whose value
  is not empty (a header present with an empty value is passed over), splits it on
  commas and whitespace into group names and authorizes exactly when \<open>admins\<close> is among
  them; with no non-empty candidate header the request is denied for want of a groups
  header, and with one that lacks \<open>admins\<close> it is denied as not an administrator.
\<close>

theorem checkAdmin_first_nonempty:
  "checkAdmin req =
     (case filter (\<lambda>v. v \<noteq> []) (List.map_filter req candidates) of
        [] \<Rightarrow> Denied NoGroupsHeader
      | v # vs \<Rightarrow> if ''admins'' \<in> set (group_names v) then Authorized else Denied NotAdmin) \<and>
   (\<forall>g v. g \<in> set (group_names v) \<longleftrightarrow> is_group_of g v)"
proof (cases "filter (\<lambda>v. v \<noteq> []) (List.map_filter req candidates)")
  case Nil
  then show ?thesis
    by (simp add: checkAdmin_def getGroupsFromHeaders_def first_value_filter group_names_iff)
next
  case (Cons v vs)
  then have "v \<in> set (filter (\<lambda>v. v \<noteq> []) (List.map_filter req candidates))"
    by simp
  then have "v \<noteq> []"
    by simp
  with Cons show ?thesis
    by (simp add: checkAdmin_def getGroupsFromHeaders_def first_value_filter group_names_iff)
qed

text \<open>The theorem at a request with two candidate headers.\<close>

theorem checkAdmin_first_nonempty_witness:
  "checkAdmin [''x-authelia-groups'' \<mapsto> ''admins'', ''x-remote-groups'' \<mapsto> ''dev''] = Authorized \<and>
   is_group_of ''admins'' ''admins''"
proof -
  note t = checkAdmin_first_nonempty
    [of "[''x-authelia-groups'' \<mapsto> ''admins'', ''x-remote-groups'' \<mapsto> ''dev'']"]
  from t have "''admins'' \<in> set (group_names ''admins'') \<longleftrightarrow> is_group_of ''admins'' ''admins''"
    by blast
  then have "is_group_of ''admins'' ''admins''"
    by (simp add: group_names_admins)
  moreover from t [THEN conjunct1]
  have "checkAdmin [''x-authelia-groups'' \<mapsto> ''admins'', ''x-remote-groups'' \<mapsto> ''dev''] = Authorized"
    by (simp add: candidates_def group_names_admins)
  ultimately show ?thesis
    by simp
qed

text \<open>
  Claim C3 as stated fails: a request with an empty \<open>x-forwarded-groups\<close> header and
  \<open>remote-groups: admins\<close> is authorized, although its first present candidate header
  resolves to a group set without \<open>admins\<close>.
\<close>

theorem checkAdmin_skips_empty_header:
  "checkAdmin [''x-forwarded-groups'' \<mapsto> [], ''remote-groups'' \<mapsto> ''admins''] = Authorized \<and>
   guard_as_specified [''x-forwarded-groups'' \<mapsto> [], ''remote-groups'' \<mapsto> ''admins'']
     = Denied NotAdmin"
  by (simp add: checkAdmin_def getGroupsFromHeaders_def candidates_def guard_as_specified_def
      first_present_def group_names_admins group_names_empty)



subsection \<open>Loading the users file\<close>




subsection \<open>Facts about the handlers\<close>

lemma js_set_falsy: "\<not> truthy_slot (js_get users k) \<Longrightarrow> js_set users k v = AList.update k v users"
  by (auto simp: js_set_def js_get_def object_prototype_keys_def split: option.splits)

lemma js_set_plain: "k \<noteq> ''__proto__'' \<Longrightarrow> js_set obj k v = AList.update k v obj"
  by (simp add: js_set_def)



lemma user_record_fields:
  "field (object_literal [(''displayname'', Some a), (''email'', e), (''password'', Some b),
      (''groups'', c)]) ''displayname'' = Some a"
  "field (object_literal [(''displayname'', Some a), (''email'', e), (''password'', Some b),
      (''groups'', c)]) ''email'' = e"
  "field (object_literal [(''displayname'', Some a), (''email'', e), (''password'', Some b),
      (''groups'', c)]) ''password'' = Some b"
  "field (object_literal [(''displayname'', Some a), (''email'', e), (''password'', Some b),
      (''groups'', c)]) ''groups'' = c"
  by (cases e; cases c; simp add: object_literal_def)+

lemma loadUsers_saveUsers: "loadUsers (saveUsers (JObj users) d) = Inr (JObj users, saveUsers (JObj users) d)"
  by (simp add: loadUsers_def saveUsers_def or_else_def)

text \<open>What a successful \<^verbatim>\<open>POST /api/users\<close> has done.\<close>

lemma post_api_users_success:
  assumes "post_api_users H b_username b_password e g dn d = (Response 200 OkBody, d')"
  shows "\<exists>name pw h users d1.
     b_username = Some name \<and> name \<noteq> [] \<and> b_password = Some pw \<and> pw \<noteq> [] \<and>
     loadUsers d = Inr (JObj users, d1) \<and> \<not> truthy_slot (js_get users name) \<and> H pw = Some h \<and>
     d' = saveUsers (JObj (AList.update name
        (object_literal [(''displayname'', Some (or_else dn (JStr name))), (''email'', e),
           (''password'', Some (JStr h)), (''groups'', Some (groups_or_default g))]) users)) d1"
  using assms
  by (auto simp: post_api_users_def js_set_falsy
      split: option.splits if_splits sum.splits prod.splits json.splits)

lemma put_api_users_object:
  assumes "loadUsers d = Inr (JObj users, d1)" and "map_of users name = Some (JObj r)"
  shows "put_api_users name e g dn d =
    (Response 200 OkBody,
     saveUsers (JObj (AList.update name
        (JObj (assign_given r [(''email'', e), (''displayname'', dn),
           (''groups'', map_option as_array g)])) users)) d1)"
  using assms by (simp add: put_api_users_def js_get_def assign_fields_def)



lemma map_of_assign_given:
  "map_of (assign_given r [(''email'', e), (''displayname'', dn), (''groups'', g)]) f =
     (if f = ''groups'' \<and> g \<noteq> None then g
      else if f = ''displayname'' \<and> dn \<noteq> None then dn
      else if f = ''email'' \<and> e \<noteq> None then e
      else map_of r f)"
  by (cases e; cases dn; cases g) (auto simp: js_set_def AList.update_conv')

lemma map_of_safe_users:
  "map_of (safe_users entries) k =
     (if k = ''__proto__'' then None else map_option strip_password (map_of entries k))"
  by (induction entries) (auto simp: safe_users_def)

lemma strip_password_fields:
  "field (strip_password (JObj r)) f =
     (if f = ''password'' \<and> truthy_opt (map_of r ''password'') then None else map_of r f)"
  by (simp add: strip_password_def js_delete_def AList.delete_conv')

lemma strip_password_user_record:
  assumes "h \<noteq> []"
  shows "field (strip_password (object_literal [(''displayname'', Some a), (''email'', e),
      (''password'', Some (JStr h)), (''groups'', c)])) f =
    (if f = ''password'' then None
     else field (object_literal [(''displayname'', Some a), (''email'', e),
      (''password'', Some (JStr h)), (''groups'', c)]) f)"
  using assms
  by (cases e; cases c; simp add: object_literal_def strip_password_def js_delete_def
      AList.delete_conv')

subsection \<open>Creating a user\<close>

text \<open>
  \<^verbatim>\<open>POST /api/users\<close> for a user name that is not the name of a member of
  \<^verbatim>\<open>Object.prototype\<close>: a missing or empty user name or password is refused, a user name
  with a truthy entry is refused as existing, and otherwise the record is inserted with
  the hashed password, the default groups and the default display name, and saved.
\<close>

lemma post_api_users_outside_inherited_names:
  fixes H :: "string \<Rightarrow> string option" and d d1 :: disk
  shows
  "(b_username = None \<or> b_username = Some [] \<longrightarrow>
      post_api_users H b_username b_password e g dn d =
        (Response 400 (ErrorBody ''username fehlt''), d)) \<and>
   (name \<noteq> [] \<and> (b_password = None \<or> b_password = Some []) \<longrightarrow>
      post_api_users H (Some name) b_password e g dn d =
        (Response 400 (ErrorBody ''password fehlt''), d)) \<and>
   (name \<noteq> [] \<and> pw \<noteq> [] \<and> loadUsers d = Inr (JObj users, d1) \<and>
    (\<exists>v. map_of users name = Some v \<and> truthy v) \<longrightarrow>
      post_api_users H (Some name) (Some pw) e g dn d =
        (Response 400 (ErrorBody ''User exists''), d1)) \<and>
   (name \<noteq> [] \<and> pw \<noteq> [] \<and> loadUsers d = Inr (JObj users, d1) \<and>
    map_of users name = None \<and> name \<notin> set object_prototype_keys \<and> H pw = Some h \<longrightarrow>
      post_api_users H (Some name) (Some pw) e g dn d =
        (Response 200 OkBody,
         saveUsers (JObj (AList.update name
           (object_literal
              [(''displayname'', Some (or_else dn (JStr name))), (''email'', e),
               (''password'', Some (JStr h)), (''groups'', Some (groups_or_default g))])
           users)) d1))"
  by (auto simp: post_api_users_def js_get_def js_set_def object_prototype_keys_def)

text \<open>
  Claim C5 fails on the code at the user name \<open>constructor\<close>: the store has no such user,
  yet \<^verbatim>\<open>users[username]\<close> finds the inherited member, the request is refused with
  "User exists" and nothing is inserted.
\<close>

theorem create_refuses_inherited_name:
  "map_of ([] :: (string \<times> json) list) ''constructor'' = None \<and>
   post_api_users (\<lambda>p. Some (''$argon2id$'' @ p)) (Some ''constructor'') (Some ''pw'')
      (Some (JStr ''c@example.com'')) None None
      \<lparr>users_yml = UDoc (Some (JObj [(''users'', JObj [])])), invites_json = IMissing\<rparr> =
    (Response 400 (ErrorBody ''User exists''),
     \<lparr>users_yml = UDoc (Some (JObj [(''users'', JObj [])])), invites_json = IMissing\<rparr>)"
  by (simp add: post_api_users_def loadUsers_def or_else_def js_get_def object_prototype_keys_def)

subsection \<open>Listing the users\<close>

text \<open>
  Claim C7, as the code has it: the list holds every stored record (under any key but
  \<open>__proto__\<close>) with its fields unchanged, except that a \<open>password\<close> field with a truthy
  value is removed; a \<open>password\<close> field with a falsy value (the empty string, null, 0,
  false) stays. After a successful creation of a user with a non-empty hash, the list
  holds that user with no \<open>password\<close> field and with the display name, email and groups
  that were stored.
\<close>

theorem get_api_users_strips_truthy_password:
  fixes H :: "string \<Rightarrow> string option" and d d' d1 :: disk
  shows
  "(loadUsers d = Inr (JObj users, d1) \<longrightarrow>
      (\<exists>listed. get_api_users d = (Response 200 (UsersBody listed), d1) \<and>
         (\<forall>k. k \<noteq> ''__proto__'' \<longrightarrow>
            map_of listed k = map_option strip_password (map_of users k)))) \<and>
   (\<forall>f. field (strip_password (JObj r)) f =
      (if f = ''password'' \<and> truthy_opt (map_of r ''password'') then None else map_of r f)) \<and>
   (post_api_users H (Some name) (Some pw) e g dn d = (Response 200 OkBody, d') \<and>
    H pw \<noteq> Some [] \<and> name \<noteq> ''__proto__'' \<longrightarrow>
      (\<exists>listed shown. get_api_users d' = (Response 200 (UsersBody listed), d') \<and>
         map_of listed name = Some shown \<and>
         field shown ''password'' = None \<and>
         field shown ''displayname'' = Some (or_else dn (JStr name)) \<and>
         field shown ''email'' = e \<and>
         field shown ''groups'' = Some (groups_or_default g)))"
proof (intro conjI impI allI)
  assume "loadUsers d = Inr (JObj users, d1)"
  then show "\<exists>listed. get_api_users d = (Response 200 (UsersBody listed), d1) \<and>
         (\<forall>k. k \<noteq> ''__proto__'' \<longrightarrow>
            map_of listed k = map_option strip_password (map_of users k))"
    by (simp add: get_api_users_def map_of_safe_users)
next
  fix f
  show "field (strip_password (JObj r)) f =
      (if f = ''password'' \<and> truthy_opt (map_of r ''password'') then None else map_of r f)"
    by (rule strip_password_fields)
next
  assume a: "post_api_users H (Some name) (Some pw) e g dn d = (Response 200 OkBody, d') \<and>
    H pw \<noteq> Some [] \<and> name \<noteq> ''__proto__''"
  from a post_api_users_success [of H "Some name" "Some pw" e g dn d d']
  obtain h users d1 where h: "H pw = Some h" "h \<noteq> []"
    and d': "d' = saveUsers (JObj (AList.update name
        (object_literal [(''displayname'', Some (or_else dn (JStr name))), (''email'', e),
           (''password'', Some (JStr h)), (''groups'', Some (groups_or_default g))]) users)) d1"
    by auto
  from a have n: "name \<noteq> ''__proto__''" by simp
  show "\<exists>listed shown. get_api_users d' = (Response 200 (UsersBody listed), d') \<and>
         map_of listed name = Some shown \<and>
         field shown ''password'' = None \<and>
         field shown ''displayname'' = Some (or_else dn (JStr name)) \<and>
         field shown ''email'' = e \<and>
         field shown ''groups'' = Some (groups_or_default g)"
    unfolding d'
    using n h(2)
    by (simp add: get_api_users_def loadUsers_saveUsers map_of_safe_users AList.update_conv'
        strip_password_user_record user_record_fields)
qed

text \<open>The theorem at the creation of \<open>alice\<close> on a missing users file.\<close>

theorem get_api_users_strips_truthy_password_witness:
  "\<exists>listed shown.
     get_api_users
       \<lparr>users_yml = UDoc (Some (JObj [(''users'', JObj
          [(''alice'', JObj [(''displayname'', JStr ''alice''), (''email'', JStr ''a@example.com''),
              (''password'', JStr ''$argon2id$secret1''), (''groups'', JArr [JStr ''users''])])])])),
        invites_json = IMissing\<rparr> =
       (Response 200 (UsersBody listed),
        \<lparr>users_yml = UDoc (Some (JObj [(''users'', JObj
          [(''alice'', JObj [(''displayname'', JStr ''alice''), (''email'', JStr ''a@example.com''),
              (''password'', JStr ''$argon2id$secret1''), (''groups'', JArr [JStr ''users''])])])])),
        invites_json = IMissing\<rparr>) \<and>
     map_of listed ''alice'' = Some shown \<and>
     field shown ''password'' = None \<and>
     field shown ''displayname'' = Some (JStr ''alice'') \<and>
     field shown ''email'' = Some (JStr ''a@example.com'') \<and>
     field shown ''groups'' = Some (JArr [JStr ''users''])"
proof -
  have "post_api_users (\<lambda>p. Some (''$argon2id$'' @ p)) (Some ''alice'') (Some ''secret1'')
      (Some (JStr ''a@example.com'')) None None
      \<lparr>users_yml = UMissing, invites_json = IMissing\<rparr> =
    (Response 200 OkBody,
     \<lparr>users_yml = UDoc (Some (JObj [(''users'', JObj
          [(''alice'', JObj [(''displayname'', JStr ''alice''), (''email'', JStr ''a@example.com''),
              (''password'', JStr ''$argon2id$secret1''), (''groups'', JArr [JStr ''users''])])])])),
        invites_json = IMissing\<rparr>) \<and>
    (\<lambda>p. Some (''$argon2id$'' @ p)) ''secret1'' \<noteq> Some [] \<and> ''alice'' \<noteq> ''__proto__''"
    by (simp add: post_api_users_def loadUsers_def skeleton_def or_else_def js_get_def
        object_prototype_keys_def js_set_def saveUsers_def object_literal_def)
  with get_api_users_strips_truthy_password
    [where H = "\<lambda>p. Some (''$argon2id$'' @ p)" and name = "''alice''" and pw = "''secret1''"
       and e = "Some (JStr ''a@example.com'')" and g = None and dn = None
       and d = "\<lparr>users_yml = UMissing, invites_json = IMissing\<rparr>"]
  show ?thesis
    by (simp add: or_else_def)
qed

text \<open>
  Claim C7 as stated fails: a stored record whose password is the empty string is
  listed with its \<open>password\<close> field.
\<close>

theorem list_keeps_empty_password:
  "fst (get_api_users
      \<lparr>users_yml = UDoc (Some (JObj [(''users'', JObj
         [(''bob'', JObj [(''displayname'', JStr ''Bob''), (''password'', JStr []),
             (''email'', JStr ''bob@example.com''), (''groups'', JArr [JStr ''users''])])])])),
       invites_json = IMissing\<rparr>) =
    Response 200 (UsersBody
      [(''bob'', JObj [(''displayname'', JStr ''Bob''), (''password'', JStr []),
          (''email'', JStr ''bob@example.com''), (''groups'', JArr [JStr ''users''])])]) \<and>
   field (JObj [(''displayname'', JStr ''Bob''), (''password'', JStr []),
          (''email'', JStr ''bob@example.com''), (''groups'', JArr [JStr ''users''])])
     ''password'' = Some (JStr [])"
  by (simp add: get_api_users_def loadUsers_def or_else_def safe_users_def strip_password_def)

subsection \<open>Updating a user\<close>

text \<open>
  \<^verbatim>\<open>PUT /api/users/:username\<close> for a user name that is not the name of a member of
  \<^verbatim>\<open>Object.prototype\<close>: an absent user is answered with 404; for a stored record the
  fields given in the request are overwritten (the groups wrapped into a list unless
  they are one), every other field and every other record is unchanged, and the store is
  saved.
\<close>

lemma put_api_users_outside_inherited_names:
  fixes d d1 :: disk
  assumes "loadUsers d = Inr (JObj users, d1)"
  shows
  "(map_of users name = None \<and> name \<notin> set object_prototype_keys \<longrightarrow>
      put_api_users name e g dn d = (Response 404 (ErrorBody ''User not found''), d1)) \<and>
   (map_of users name = Some (JObj r) \<longrightarrow>
      (\<exists>users' r'. put_api_users name e g dn d = (Response 200 OkBody, saveUsers (JObj users') d1) \<and>
         map_of users' name = Some (JObj r') \<and>
         (\<forall>k. k \<noteq> name \<longrightarrow> map_of users' k = map_of users k) \<and>
         (\<forall>f. map_of r' f =
            (if f = ''groups'' \<and> g \<noteq> None then map_option as_array g
             else if f = ''displayname'' \<and> dn \<noteq> None then dn
             else if f = ''email'' \<and> e \<noteq> None then e
             else map_of r f))))"
proof (intro conjI impI)
  assume "map_of users name = None \<and> name \<notin> set object_prototype_keys"
  with assms show "put_api_users name e g dn d = (Response 404 (ErrorBody ''User not found''), d1)"
    by (simp add: put_api_users_def js_get_def)
next
  assume r: "map_of users name = Some (JObj r)"
  show "\<exists>users' r'. put_api_users name e g dn d = (Response 200 OkBody, saveUsers (JObj users') d1) \<and>
         map_of users' name = Some (JObj r') \<and>
         (\<forall>k. k \<noteq> name \<longrightarrow> map_of users' k = map_of users k) \<and>
         (\<forall>f. map_of r' f =
            (if f = ''groups'' \<and> g \<noteq> None then map_option as_array g
             else if f = ''displayname'' \<and> dn \<noteq> None then dn
             else if f = ''email'' \<and> e \<noteq> None then e
             else map_of r f))"
  proof (intro exI conjI)
    show "put_api_users name e g dn d =
      (Response 200 OkBody,
       saveUsers (JObj (AList.update name
          (JObj (assign_given r [(''email'', e), (''displayname'', dn),
             (''groups'', map_option as_array g)])) users)) d1)"
      by (rule put_api_users_object [OF assms r])
    show "map_of (AList.update name
          (JObj (assign_given r [(''email'', e), (''displayname'', dn),
             (''groups'', map_option as_array g)])) users) name =
        Some (JObj (assign_given r [(''email'', e), (''displayname'', dn),
             (''groups'', map_option as_array g)]))"
      by (simp add: AList.update_conv')
    show "\<forall>k. k \<noteq> name \<longrightarrow>
        map_of (AList.update name
          (JObj (assign_given r [(''email'', e), (''displayname'', dn),
             (''groups'', map_option as_array g)])) users) k = map_of users k"
      by (simp add: AList.update_conv')
    show "\<forall>f. map_of (assign_given r [(''email'', e), (''displayname'', dn),
             (''groups'', map_option as_array g)]) f =
            (if f = ''groups'' \<and> g \<noteq> None then map_option as_array g
             else if f = ''displayname'' \<and> dn \<noteq> None then dn
             else if f = ''email'' \<and> e \<noteq> None then e
             else map_of r f)"
      unfolding map_of_assign_given by simp
  qed
qed

text \<open>
  Claim C8 fails on the code at the user name \<open>toString\<close>: the store has no such user,
  yet \<^verbatim>\<open>users[username]\<close> finds the inherited member and the request is answered with
  status 200 instead of 404.
\<close>

theorem update_accepts_inherited_name:
  "map_of ([] :: (string \<times> json) list) ''toString'' = None \<and>
   put_api_users ''toString'' (Some (JStr ''x@example.com'')) None None
      \<lparr>users_yml = UDoc (Some (JObj [(''users'', JObj [])])), invites_json = IMissing\<rparr> =
    (Response 200 OkBody,
     \<lparr>users_yml = UDoc (Some (JObj [(''users'', JObj [])])), invites_json = IMissing\<rparr>)"
  by (simp add: put_api_users_def loadUsers_def or_else_def js_get_def object_prototype_keys_def
      saveUsers_def)

subsection \<open>The groups of a stored record\<close>




subsection \<open>Creating an invitation\<close>

text \<open>
  Claim C9, as the code has it: for a request with a truthy email, the stored
  invitation has \<open>createdAt\<close> equal to the first clock reading and \<open>expiresAt\<close> equal to
  the second clock reading plus \<open>expiresMinutes * 60 * 1000\<close>, with \<open>expiresMinutes\<close>
  defaulting to 60 and the arithmetic exact within the safe integers; so \<open>expiresAt\<close> is
  \<open>createdAt\<close> plus that many milliseconds when the two readings agree. The response is
  the token and the link, whatever the mail transport does.
\<close>

theorem post_api_invite_expiry:
  assumes "truthy addr" and "token \<noteq> ''__proto__''"
    and "expiry now2 (case m of None \<Rightarrow> 60 | Some k \<Rightarrow> k) = Some e"
  shows "fst (post_api_invite transporter base token now1 now2 (Some addr) g dn m d) =
      Response 200 (InviteBody token (base @ ''/admin/invite/accept.html?token='' @ token)) \<and>
    map_of (loadInvites (fst (snd
        (post_api_invite transporter base token now1 now2 (Some addr) g dn m d)))) token =
      Some \<lparr>email = addr, groups = groups_or_default g, displayname = or_else dn (JStr []),
            createdAt = now1,
            expiresAt = now2 + (case m of None \<Rightarrow> 60 | Some k \<Rightarrow> k) * 60 * 1000\<rparr> \<and>
    (now1 = now2 \<longrightarrow>
      map_option (\<lambda>i. expiresAt i - createdAt i)
        (map_of (loadInvites (fst (snd
          (post_api_invite transporter base token now1 now2 (Some addr) g dn m d)))) token) =
      Some ((case m of None \<Rightarrow> 60 | Some k \<Rightarrow> k) * 60 * 1000))"
proof -
  from assms(3) have e: "e = now2 + (case m of None \<Rightarrow> 60 | Some k \<Rightarrow> k) * 60 * 1000"
    by (simp add: expiry_def split: if_splits)
  show ?thesis
    using assms(1,2) assms(3)
    by (simp add: post_api_invite_def Let_def js_set_plain saveInvites_def loadInvites_def
        AList.update_conv' e)
qed

text \<open>The theorem at an invitation of one minute whose mail is rejected.\<close>

theorem post_api_invite_expiry_witness:
  "fst (post_api_invite (Rejected ''timeout'') ''https://auth.example.com''
      ''3b241101-e2bb-4255-8caf-4136c566a962'' 1700000000000 1700000000000
      (Some (JStr ''bob@example.com'')) None None (Some 1)
      \<lparr>users_yml = UMissing, invites_json = IMissing\<rparr>) =
    Response 200 (InviteBody ''3b241101-e2bb-4255-8caf-4136c566a962''
      ''https://auth.example.com/admin/invite/accept.html?token=3b241101-e2bb-4255-8caf-4136c566a962'') \<and>
   map_of (loadInvites (fst (snd
      (post_api_invite (Rejected ''timeout'') ''https://auth.example.com''
         ''3b241101-e2bb-4255-8caf-4136c566a962'' 1700000000000 1700000000000
         (Some (JStr ''bob@example.com'')) None None (Some 1)
         \<lparr>users_yml = UMissing, invites_json = IMissing\<rparr>))))
     ''3b241101-e2bb-4255-8caf-4136c566a962'' =
   Some \<lparr>email = JStr ''bob@example.com'', groups = JArr [JStr ''users''],
         displayname = JStr [], createdAt = 1700000000000, expiresAt = 1700000060000\<rparr>"
  using post_api_invite_expiry [where addr = "JStr ''bob@example.com''"
      and token = "''3b241101-e2bb-4255-8caf-4136c566a962''" and ?now2.0 = 1700000000000
      and m = "Some 1" and e = 1700000060000 and transporter = "Rejected ''timeout''"
      and base = "''https://auth.example.com''" and ?now1.0 = 1700000000000
      and g = None and dn = None and d = "\<lparr>users_yml = UMissing, invites_json = IMissing\<rparr>"]
  by (simp add: expiry_def safe_integer_def or_else_def)

text \<open>
  Claim C9 as stated fails: when the clock advances by a millisecond between the two
  calls of \<^verbatim>\<open>Date.now()\<close>, \<open>expiresAt\<close> is not \<open>createdAt\<close> plus sixty minutes.
\<close>

theorem invite_expiry_from_second_clock_reading:
  "map_of (loadInvites (fst (snd
      (post_api_invite NoTransport [] ''3b241101-e2bb-4255-8caf-4136c566a962''
         1700000000000 1700000000001 (Some (JStr ''bob@example.com'')) None None None
         \<lparr>users_yml = UMissing, invites_json = IMissing\<rparr>))))
     ''3b241101-e2bb-4255-8caf-4136c566a962'' =
   Some \<lparr>email = JStr ''bob@example.com'', groups = JArr [JStr ''users''],
         displayname = JStr [], createdAt = 1700000000000, expiresAt = 1700003600001\<rparr> \<and>
   (1700003600001 :: int) \<noteq> 1700000000000 + 60 * 60 * 1000"
  by (simp add: post_api_invite_def expiry_def safe_integer_def Let_def js_set_def
      loadInvites_def saveInvites_def or_else_def)

subsection \<open>Accepting an invitation\<close>

text \<open>
  Claim C6, as the code has it: accepting a stored, unexpired invitation when the store
  loads and the password is hashed. For a user name that is not stored and is not the
  name of a member of \<^verbatim>\<open>Object.prototype\<close>, the user is created with the invitation's
  email and groups, the hashed password, and the invitation's display name when that is
  truthy and the user name otherwise; every other user is unchanged, the invitation is
  deleted and the other invitations are kept. For a user name with a truthy entry the
  request is refused with "username exists".
\<close>

theorem post_api_invite_accept_creates_user:
  fixes H :: "string \<Rightarrow> string option" and d d1 :: disk
  assumes "token \<noteq> []" and "name \<noteq> []" and "pw \<noteq> []"
    and "map_of (loadInvites d) token = Some invite" and "now \<le> expiresAt invite"
    and "loadUsers d = Inr (JObj users, d1)" and "H pw = Some h"
  shows
  "(map_of users name = None \<and> name \<notin> set object_prototype_keys \<longrightarrow>
      (\<exists>users' invites'.
         post_api_invite_accept H now (Some token) (Some name) (Some pw) d =
           (Response 200 OkBody,
            \<lparr>users_yml = UDoc (Some (JObj [(''users'', JObj users')])),
             invites_json = IDoc invites'\<rparr>) \<and>
         map_of users' name =
           Some (JObj [(''displayname'',
                        if truthy (displayname invite) then displayname invite else JStr name),
                       (''email'', email invite),
                       (''password'', JStr h),
                       (''groups'', groups invite)]) \<and>
         (\<forall>k. k \<noteq> name \<longrightarrow> map_of users' k = map_of users k) \<and>
         map_of invites' token = None \<and>
         (\<forall>t. t \<noteq> token \<longrightarrow> map_of invites' t = map_of (loadInvites d) t))) \<and>
   ((\<exists>v. map_of users name = Some v \<and> truthy v) \<longrightarrow>
      post_api_invite_accept H now (Some token) (Some name) (Some pw) d =
        (Response 400 (ErrorBody ''username exists''), d1))"
proof -
  from assms(4) have g: "js_get (loadInvites d) token = Own invite"
    by (simp add: js_get_def)
  from assms(5) have x: "\<not> expired now (Own invite)"
    by (simp add: expired_def)
  have saved: "saveInvites a (saveUsers b d1) =
      \<lparr>users_yml = UDoc (Some (JObj [(''users'', b)])), invites_json = IDoc a\<rparr>" for a b
    by (cases d1) (simp add: saveInvites_def saveUsers_def)
  have lit: "object_literal
      [(''displayname'', Some (or_else (Some (displayname invite)) (JStr name))),
       (''email'', Some (email invite)), (''password'', Some (JStr h)),
       (''groups'', Some (groups invite))] =
     JObj [(''displayname'', if truthy (displayname invite) then displayname invite else JStr name),
           (''email'', email invite), (''password'', JStr h), (''groups'', groups invite)]"
    by (simp add: object_literal_def or_else_def)
  show ?thesis
  proof (intro conjI impI)
    assume a: "map_of users name = None \<and> name \<notin> set object_prototype_keys"
    then have absent: "js_get users name = Absent"
      by (simp add: js_get_def)
    from a have "name \<noteq> ''__proto__''"
      by (auto simp: object_prototype_keys_def)
    then have set: "js_set users name v = AList.update name v users" for v
      by (simp add: js_set_def)
    have run: "post_api_invite_accept H now (Some token) (Some name) (Some pw) d =
      (Response 200 OkBody,
       \<lparr>users_yml = UDoc (Some (JObj [(''users'', JObj (AList.update name
           (JObj [(''displayname'',
                   if truthy (displayname invite) then displayname invite else JStr name),
                  (''email'', email invite), (''password'', JStr h),
                  (''groups'', groups invite)]) users))])),
        invites_json = IDoc (AList.delete token (loadInvites d))\<rparr>)"
      using assms(1-3,6,7) x
      by (simp add: post_api_invite_accept_def Let_def g absent set saved lit js_delete_def)
    show "\<exists>users' invites'.
         post_api_invite_accept H now (Some token) (Some name) (Some pw) d =
           (Response 200 OkBody,
            \<lparr>users_yml = UDoc (Some (JObj [(''users'', JObj users')])),
             invites_json = IDoc invites'\<rparr>) \<and>
         map_of users' name =
           Some (JObj [(''displayname'',
                        if truthy (displayname invite) then displayname invite else JStr name),
                       (''email'', email invite),
                       (''password'', JStr h),
                       (''groups'', groups invite)]) \<and>
         (\<forall>k. k \<noteq> name \<longrightarrow> map_of users' k = map_of users k) \<and>
         map_of invites' token = None \<and>
         (\<forall>t. t \<noteq> token \<longrightarrow> map_of invites' t = map_of (loadInvites d) t)"
      unfolding run
      by (intro exI conjI) (rule refl, simp_all add: AList.update_conv' AList.delete_conv')
  next
    assume "\<exists>v. map_of users name = Some v \<and> truthy v"
    then have "truthy_slot (js_get users name)"
      by (auto simp: js_get_def)
    then show "post_api_invite_accept H now (Some token) (Some name) (Some pw) d =
        (Response 400 (ErrorBody ''username exists''), d1)"
      using assms(1-3,6,7) x
      by (simp add: post_api_invite_accept_def Let_def g)
  qed
qed

text \<open>The theorem at an invitation for \<open>bob\<close> with the display name \<open>Bob\<close>.\<close>

theorem post_api_invite_accept_creates_user_witness:
  "\<exists>users' invites'.
     post_api_invite_accept (\<lambda>p. Some (''$argon2id$'' @ p)) 1700000000000
       (Some ''3b241101-e2bb-4255-8caf-4136c566a962'') (Some ''bob'') (Some ''pw'')
       \<lparr>users_yml = UDoc (Some (JObj [(''users'', JObj [])])),
        invites_json = IDoc [(''3b241101-e2bb-4255-8caf-4136c566a962'',
          \<lparr>email = JStr ''bob@example.com'', groups = JArr [JStr ''users''],
           displayname = JStr ''Bob'', createdAt = 1699999990000, expiresAt = 1700003590000\<rparr>)]\<rparr> =
       (Response 200 OkBody,
        \<lparr>users_yml = UDoc (Some (JObj [(''users'', JObj users')])),
         invites_json = IDoc invites'\<rparr>) \<and>
     map_of users' ''bob'' =
       Some (JObj [(''displayname'', JStr ''Bob''), (''email'', JStr ''bob@example.com''),
                   (''password'', JStr ''$argon2id$pw''), (''groups'', JArr [JStr ''users''])]) \<and>
     map_of invites' ''3b241101-e2bb-4255-8caf-4136c566a962'' = None"
proof -
  let ?inv = "\<lparr>email = JStr ''bob@example.com'', groups = JArr [JStr ''users''],
           displayname = JStr ''Bob'', createdAt = 1699999990000, expiresAt = 1700003590000\<rparr>"
  let ?d = "\<lparr>users_yml = UDoc (Some (JObj [(''users'', JObj [])])),
        invites_json = IDoc [(''3b241101-e2bb-4255-8caf-4136c566a962'', ?inv)]\<rparr>"
  have 1: "''3b241101-e2bb-4255-8caf-4136c566a962'' \<noteq> []" and 2: "''bob'' \<noteq> []"
    and 3: "''pw'' \<noteq> []"
    by simp_all
  have 4: "map_of (loadInvites ?d) ''3b241101-e2bb-4255-8caf-4136c566a962'' = Some ?inv"
    by (simp add: loadInvites_def)
  have 5: "1700000000000 \<le> expiresAt ?inv"
    by simp
  have 6: "loadUsers ?d = Inr (JObj [], ?d)"
    by (simp add: loadUsers_def or_else_def)
  have 7: "(\<lambda>p. Some (''$argon2id$'' @ p)) ''pw'' = Some ''$argon2id$pw''"
    by simp
  from post_api_invite_accept_creates_user
    [where H = "\<lambda>p. Some (''$argon2id$'' @ p)" and pw = "''pw''", OF 1 2 3 4 5 6 7]
  show ?thesis
    by (simp add: object_prototype_keys_def) blast
qed

text \<open>
  Claim C6 as stated fails: an invitation stored without a display name (the empty
  string) creates a user whose display name is the user name, not the invitation's.
\<close>

theorem accept_displayname_falls_back:
  "post_api_invite_accept (\<lambda>p. Some (''$argon2id$'' @ p)) 1700000000000
      (Some ''3b241101-e2bb-4255-8caf-4136c566a962'') (Some ''bob'') (Some ''pw'')
      \<lparr>users_yml = UDoc (Some (JObj [(''users'', JObj [])])),
       invites_json = IDoc [(''3b241101-e2bb-4255-8caf-4136c566a962'',
         \<lparr>email = JStr ''bob@example.com'', groups = JArr [JStr ''users''],
          displayname = JStr [], createdAt = 1699999990000, expiresAt = 1700003590000\<rparr>)]\<rparr> =
    (Response 200 OkBody,
     \<lparr>users_yml = UDoc (Some (JObj [(''users'', JObj
        [(''bob'', JObj [(''displayname'', JStr ''bob''), (''email'', JStr ''bob@example.com''),
            (''password'', JStr ''$argon2id$pw''), (''groups'', JArr [JStr ''users''])])])])),
      invites_json = IDoc []\<rparr>) \<and>
   JStr ''bob'' \<noteq> displayname
      \<lparr>email = JStr ''bob@example.com'', groups = JArr [JStr ''users''],
       displayname = JStr [], createdAt = 1699999990000, expiresAt = 1700003590000\<rparr>"
  by (simp add: post_api_invite_accept_def Let_def loadInvites_def js_get_def
      object_prototype_keys_def expired_def loadUsers_def or_else_def js_set_def js_delete_def
      saveUsers_def saveInvites_def object_literal_def)

text \<open>
  A successful or expired acceptance leaves no invitation under the token, and for a
  token that is not the name of a member of \<^verbatim>\<open>Object.prototype\<close> every later acceptance
  with that token is refused as invalid.
\<close>

lemma post_api_invite_accept_consumes:
  assumes "fst (post_api_invite_accept H now (Some token) b_username b_password d) = Response 200 OkBody
     \<or> fst (post_api_invite_accept H now (Some token) b_username b_password d) =
         Response 400 (ErrorBody ''token expired'')"
  shows "map_of (loadInvites (snd (post_api_invite_accept H now (Some token) b_username b_password d)))
     token = None"
  using assms
  by (auto simp: post_api_invite_accept_def Let_def loadInvites_def saveInvites_def js_delete_def
      AList.delete_conv'
      split: option.splits if_splits sum.splits prod.splits json.splits)

lemma post_api_invite_accept_no_replay:
  assumes "fst (post_api_invite_accept H now (Some token) b_username b_password d) = Response 200 OkBody
     \<or> fst (post_api_invite_accept H now (Some token) b_username b_password d) =
         Response 400 (ErrorBody ''token expired'')"
    and "token \<notin> set object_prototype_keys" and "name' \<noteq> []" and "pw' \<noteq> []"
  shows "fst (post_api_invite_accept H' now' (Some token) (Some name') (Some pw')
      (snd (post_api_invite_accept H now (Some token) b_username b_password d))) =
    Response 400 (ErrorBody ''invalid token'')"
proof -
  have t: "token \<noteq> []"
    using assms(1)
    by (auto simp: post_api_invite_accept_def split: option.splits)
  from post_api_invite_accept_consumes [OF assms(1)] assms(2)
  have "js_get (loadInvites (snd (post_api_invite_accept H now (Some token) b_username b_password d)))
     token = Absent"
    by (simp add: js_get_def)
  then show ?thesis
    using t assms(3,4) by (simp add: post_api_invite_accept_def Let_def)
qed

text \<open>
  Claim C2 fails on the code at the token \<open>constructor\<close>: with no invitation stored,
  \<^verbatim>\<open>invites[token]\<close> finds the inherited member, which has no \<open>expiresAt\<close>; the acceptance
  succeeds and creates the user, and a second acceptance with the same token succeeds
  again.
\<close>

theorem accept_replays_inherited_token:
  "fst (post_api_invite_accept (\<lambda>p. Some (''$argon2id$'' @ p)) 1700000000000
      (Some ''constructor'') (Some ''eve'') (Some ''pw'')
      \<lparr>users_yml = UDoc (Some (JObj [(''users'', JObj [])])), invites_json = IDoc []\<rparr>) =
    Response 200 OkBody \<and>
   post_api_invite_accept (\<lambda>p. Some (''$argon2id$'' @ p)) 1700000000001
      (Some ''constructor'') (Some ''mallory'') (Some ''pw'')
      (snd (post_api_invite_accept (\<lambda>p. Some (''$argon2id$'' @ p)) 1700000000000
         (Some ''constructor'') (Some ''eve'') (Some ''pw'')
         \<lparr>users_yml = UDoc (Some (JObj [(''users'', JObj [])])), invites_json = IDoc []\<rparr>)) =
    (Response 200 OkBody,
     \<lparr>users_yml = UDoc (Some (JObj [(''users'', JObj
        [(''eve'', JObj [(''displayname'', JStr ''eve''), (''password'', JStr ''$argon2id$pw'')]),
         (''mallory'', JObj [(''displayname'', JStr ''mallory''),
            (''password'', JStr ''$argon2id$pw'')])])])),
      invites_json = IDoc []\<rparr>)"
  by (simp add: post_api_invite_accept_def Let_def loadInvites_def js_get_def
      object_prototype_keys_def expired_def loadUsers_def or_else_def js_set_def js_delete_def
      saveUsers_def saveInvites_def object_literal_def)

end
